theory Spec2Isabelle
  imports Main "HOL-Library.Sublist"
begin

section \<open>golem: instantiating a generic Go template by textual rewriting\<close>

text \<open>
  The program \<^verbatim>\<open>cmd/golem/main.go\<close> reads a template, rewrites it with three
  functions (\<^verbatim>\<open>declareType\<close>, \<^verbatim>\<open>referenceType\<close>, \<^verbatim>\<open>repackage\<close>), puts a header
  in front and writes the result. Byte slices and Go strings are modelled as
  \<^typ>\<open>string\<close> (a list of 8-bit characters). The functions of Go's standard library
  that the program calls are modelled first, each from its documented behaviour.
\<close>

subsection \<open>Library: \<^verbatim>\<open>bytes.Index\<close>, \<^verbatim>\<open>bytes.Replace\<close>, \<^verbatim>\<open>bytes.ReplaceAll\<close>\<close>

text \<open>
  \<^verbatim>\<open>bytes.Index(s, sep)\<close> is the index of the first instance of \<^verbatim>\<open>sep\<close> in
  \<^verbatim>\<open>s\<close>, or \<^verbatim>\<open>-1\<close> (here \<open>None\<close>) when there is none.
\<close>

fun Index :: "string \<Rightarrow> string \<Rightarrow> nat option" where
  "Index [] sep = (if sep = [] then Some 0 else None)"
| "Index (c # cs) sep =
     (if prefix sep (c # cs) then Some 0 else map_option Suc (Index cs sep))"

lemma Index_bound: "Index s sep = Some j \<Longrightarrow> j + length sep \<le> length s"
proof (induction s arbitrary: j)
  case Nil
  then show ?case by (simp split: if_splits)
next
  case (Cons c cs)
  show ?case
  proof (cases "prefix sep (c # cs)")
    case True
    with Cons.prems have "j = 0" by simp
    with True prefix_length_le [of sep "c # cs"] show ?thesis by simp
  next
    case False
    with Cons.prems obtain k where "Index cs sep = Some k" "j = Suc k" by auto
    with Cons.IH show ?thesis by fastforce
  qed
qed

lemma Index_shrinks:
  assumes "sep \<noteq> []" and "Index s sep = Some j"
  shows "length s - (j + length sep) < length s"
proof -
  from assms(1) have "0 < length sep" by simp
  with Index_bound [OF assms(2)] show ?thesis by linarith
qed

text \<open>
  \<^verbatim>\<open>bytes.Replace(s, old, new, n)\<close> copies \<^verbatim>\<open>s\<close> with the first \<^verbatim>\<open>n\<close>
  non-overlapping instances of \<^verbatim>\<open>old\<close> replaced by \<^verbatim>\<open>new\<close>; a negative \<^verbatim>\<open>n\<close>
  sets no limit. Go's loop finds the next instance with \<^verbatim>\<open>Index\<close> in the rest of
  the text, copies what lies before it, then \<^verbatim>\<open>new\<close>, and goes on behind the
  instance; the recursion below is that loop. With an empty \<^verbatim>\<open>old\<close> Go inserts
  \<^verbatim>\<open>new\<close> at every rune boundary; the program only passes the non-empty literals
  \<^verbatim>\<open>type genT interface{}\<close>, \<^verbatim>\<open>genT\<close> and \<^verbatim>\<open>AnyT\<close>, and the model leaves the text
  as it is for an empty \<^verbatim>\<open>old\<close>.
\<close>

function Replace :: "string \<Rightarrow> string \<Rightarrow> string \<Rightarrow> int \<Rightarrow> string" where
  "Replace s old new n =
     (if n = 0 \<or> old = [] then s
      else case Index s old of
             None \<Rightarrow> s
           | Some j \<Rightarrow> take j s @ new @ Replace (drop (j + length old) s) old new (n - 1))"
  by pat_completeness auto
termination
  by (relation "measure (\<lambda>(s, old, new, n). length s)") (simp_all add: Index_shrinks)

declare Replace.simps [simp del]

definition ReplaceAll :: "string \<Rightarrow> string \<Rightarrow> string \<Rightarrow> string" where
  "ReplaceAll s old new = Replace s old new (- 1)"

subsection \<open>Library: \<^verbatim>\<open>strings.Title\<close>\<close>

text \<open>
  \<^verbatim>\<open>strings.Title\<close> maps to title case every letter that begins a word: a letter
  whose predecessor (a space before the first one) is a separator. ASCII letters,
  digits and the underscore are not separators, every other ASCII character is. The
  model is exact on ASCII text; a byte above \<^verbatim>\<open>0x7F\<close> is kept as it is and is not a
  separator.
\<close>

definition isSeparator :: "char \<Rightarrow> bool" where
  "isSeparator r =
     (let n = (of_char r :: nat) in
      if n \<le> 0x7F then
        \<not> ((48 \<le> n \<and> n \<le> 57) \<or> (97 \<le> n \<and> n \<le> 122) \<or> (65 \<le> n \<and> n \<le> 90) \<or> n = 95)
      else False)"

definition ToTitle :: "char \<Rightarrow> char" where
  "ToTitle r =
     (case map_of (zip ''abcdefghijklmnopqrstuvwxyz'' ''ABCDEFGHIJKLMNOPQRSTUVWXYZ'') r of
        None \<Rightarrow> r
      | Some u \<Rightarrow> u)"

fun title_from :: "char \<Rightarrow> string \<Rightarrow> string" where
  "title_from prev [] = []"
| "title_from prev (r # rs) = (if isSeparator prev then ToTitle r else r) # title_from r rs"

definition Title :: "string \<Rightarrow> string" where
  "Title s = title_from (CHR '' '') s"

subsection \<open>The rewriting functions of the program\<close>

text \<open>\<^verbatim>\<open>declareType\<close> (main.go, lines 128 to 139).\<close>

definition declareType :: "string \<Rightarrow> string \<Rightarrow> string" where
  "declareType file knd =
     (let a = Replace file ''type genT interface{}'' (''type gen'' @ Title knd @ '' '' @ knd) 1;
          b = ReplaceAll a ''genT'' (''gen'' @ Title knd)
      in b)"

text \<open>\<^verbatim>\<open>referenceType\<close> (main.go, lines 142 to 147).\<close>

definition referenceType :: "string \<Rightarrow> string \<Rightarrow> string" where
  "referenceType file knd = ReplaceAll file ''AnyT'' knd"

subsection \<open>Library: \<^verbatim>\<open>regexp.ReplaceAll\<close> for the pattern of \<^verbatim>\<open>repackage\<close>\<close>

text \<open>
  The replacement text of \<^verbatim>\<open>Regexp.ReplaceAll\<close> is a template: \<^verbatim>\<open>$$\<close> stands for
  a dollar sign, \<^verbatim>\<open>$name\<close> and \<^verbatim>\<open>${name}\<close> for a submatch, where a name is the longest
  run of letters, digits and underscores, and a dollar sign followed by anything else
  stands for itself. (Letters are the ASCII letters here.)
\<close>

definition isWordChar :: "char \<Rightarrow> bool" where
  "isWordChar r =
     (let n = (of_char r :: nat) in
      (48 \<le> n \<and> n \<le> 57) \<or> (97 \<le> n \<and> n \<le> 122) \<or> (65 \<le> n \<and> n \<le> 90) \<or> n = 95)"

definition extract_name :: "string \<Rightarrow> (string \<times> string) option" where
  "extract_name str =
     (if str = [] then None
      else
        let brace = (hd str = CHR ''{'');
            str1 = (if brace then tl str else str);
            name = takeWhile isWordChar str1;
            rest = dropWhile isWordChar str1
        in if name = [] then None
           else if brace then
             (case rest of
                [] \<Rightarrow> None
              | c # rest1 \<Rightarrow> if c = CHR ''}'' then Some (name, rest1) else None)
           else Some (name, rest))"

text \<open>
  The pattern \<^verbatim>\<open>package (.*)\n\<close> has one unnamed group: the name \<^verbatim>\<open>0\<close> is the whole
  match, \<^verbatim>\<open>1\<close> the group, and every other name or number (also one written with
  leading zeros) refers to nothing and expands to the empty text.
\<close>

definition submatch :: "string \<Rightarrow> string \<Rightarrow> string \<Rightarrow> string" where
  "submatch name whole group1 =
     (if name = ''0'' then whole else if name = ''1'' then group1 else [])"

lemma extract_name_shorter: "extract_name str = Some (name, rest) \<Longrightarrow> length rest \<le> length str"
proof -
  assume a: "extract_name str = Some (name, rest)"
  have d: "length (dropWhile isWordChar xs) \<le> length xs" for xs
    by (rule length_dropWhile_le)
  from a have ne: "str \<noteq> []" by (auto simp: extract_name_def)
  show ?thesis
  proof (cases "hd str = CHR ''{''")
    case True
    with a ne obtain c where "dropWhile isWordChar (tl str) = c # rest"
      by (auto simp: extract_name_def Let_def split: if_splits list.splits)
    with d [of "tl str"] show ?thesis by simp
  next
    case False
    with a ne have "rest = dropWhile isWordChar str"
      by (auto simp: extract_name_def Let_def split: if_splits)
    with d [of str] show ?thesis by simp
  qed
qed

function expand :: "string \<Rightarrow> string \<Rightarrow> string \<Rightarrow> string" where
  "expand [] whole group1 = []"
| "expand (c # rest) whole group1 =
     (if c \<noteq> CHR ''$'' then c # expand rest whole group1
      else if rest \<noteq> [] \<and> hd rest = CHR ''$'' then CHR ''$'' # expand (tl rest) whole group1
      else case extract_name rest of
             None \<Rightarrow> CHR ''$'' # expand rest whole group1
           | Some (name, rest1) \<Rightarrow> submatch name whole group1 @ expand rest1 whole group1)"
  by pat_completeness auto
termination
proof (relation "measure (\<lambda>(t, whole, group1). length t)", goal_cases)
  case 1
  show ?case by simp
next
  case (2 c rest whole group1)
  then show ?case by simp
next
  case (3 c rest whole group1)
  then show ?case by (cases rest) auto
next
  case (4 c rest whole group1)
  then show ?case by simp
next
  case (5 c rest whole group1 x2 name rest1)
  then have "extract_name rest = Some (name, rest1)" by simp
  from extract_name_shorter [OF this] show ?case by simp
qed

text \<open>
  The leftmost match of \<^verbatim>\<open>package (.*)\n\<close> in a text. The dot matches every
  character but the newline, so a match is the literal \<^verbatim>\<open>package \<close> (with its
  space), then the characters up to the next newline, then that newline. The leftmost
  match starts at the first instance of the literal that has a newline somewhere
  behind it; when the first instance has none, no later one has. The result is the
  index where the match starts and the length of the group.
\<close>

definition find_match :: "string \<Rightarrow> (nat \<times> nat) option" where
  "find_match s =
     (case Index s ''package '' of
        None \<Rightarrow> None
      | Some i \<Rightarrow>
          (case Index (drop (i + 8) s) ''\<newline>'' of
             None \<Rightarrow> None
           | Some k \<Rightarrow> Some (i, k)))"

lemma find_match_shrinks:
  assumes "find_match s = Some (i, k)"
  shows "length s - (i + 8 + k + 1) < length s"
proof -
  from assms obtain "Index s ''package '' = Some i"
    by (auto simp: find_match_def split: option.splits)
  from Index_bound [OF this] show ?thesis by simp
qed

text \<open>
  \<^verbatim>\<open>re.ReplaceAll(src, repl)\<close> for that pattern: every match, found from left to
  right, each search starting behind the match before, is replaced by the expanded
  template; the text between the matches is copied.
\<close>

function re_ReplaceAll :: "string \<Rightarrow> string \<Rightarrow> string" where
  "re_ReplaceAll src repl =
     (case find_match src of
        None \<Rightarrow> src
      | Some (i, k) \<Rightarrow>
          take i src
          @ expand repl (take (8 + k + 1) (drop i src)) (take k (drop (i + 8) src))
          @ re_ReplaceAll (drop (i + 8 + k + 1) src) repl)"
  by pat_completeness auto
termination
  by (relation "measure (\<lambda>(src, repl). length src)") (auto dest!: find_match_shrinks)

declare re_ReplaceAll.simps [simp del]

text \<open>\<^verbatim>\<open>repackage\<close> (main.go, lines 150 to 153).\<close>

definition repackage :: "string \<Rightarrow> string \<Rightarrow> string" where
  "repackage file pkg = re_ReplaceAll file (''package '' @ pkg @ ''\<newline>'')"

subsection \<open>Library: \<^verbatim>\<open>path/filepath\<close> and \<^verbatim>\<open>strings.TrimSuffix\<close>\<close>

text \<open>
  Paths are Unix paths, with \<^verbatim>\<open>/\<close> as the separator. \<^verbatim>\<open>filepath.Clean\<close> is
  modelled on the elements of the path: empty elements and \<^verbatim>\<open>.\<close> are dropped, a
  \<^verbatim>\<open>..\<close> removes the element before it when there is one that is not itself
  \<^verbatim>\<open>..\<close>, is dropped at the root of a rooted path, and is kept otherwise; the
  empty result is \<^verbatim>\<open>.\<close>.
\<close>

fun split_sep :: "string \<Rightarrow> string list" where
  "split_sep [] = [] # []"
| "split_sep (c # cs) =
     (if c = CHR ''/'' then [] # split_sep cs
      else case split_sep cs of
             [] \<Rightarrow> [c] # []
           | e # es \<Rightarrow> (c # e) # es)"

fun join_sep :: "string list \<Rightarrow> string" where
  "join_sep [] = []"
| "join_sep [e] = e"
| "join_sep (e # f # es) = e @ ''/'' @ join_sep (f # es)"

definition clean_step :: "bool \<Rightarrow> string list \<Rightarrow> string \<Rightarrow> string list" where
  "clean_step rooted out e =
     (if e = [] \<or> e = ''.'' then out
      else if e = ''..'' then
        (if out \<noteq> [] \<and> last out \<noteq> ''..'' then butlast out
         else if \<not> rooted then out @ [''..'']
         else out)
      else out @ [e])"

definition Clean :: "string \<Rightarrow> string" where
  "Clean path =
     (if path = [] then ''.''
      else
        let rooted = (hd path = CHR ''/'');
            out = foldl (clean_step rooted) [] (split_sep path);
            buf = (if rooted then ''/'' else []) @ join_sep out
        in if buf = [] then ''.'' else buf)"

text \<open>\<^verbatim>\<open>filepath.Join\<close> ignores leading empty elements, joins the rest and cleans.\<close>

definition Join :: "string list \<Rightarrow> string" where
  "Join elem =
     (case dropWhile (\<lambda>e. e = []) elem of
        [] \<Rightarrow> []
      | e # es \<Rightarrow> Clean (join_sep (e # es)))"

definition Base :: "string \<Rightarrow> string" where
  "Base path =
     (if path = [] then ''.''
      else
        let stripped = rev (dropWhile (\<lambda>c. c = CHR ''/'') (rev path));
            elem = rev (takeWhile (\<lambda>c. c \<noteq> CHR ''/'') (rev stripped))
        in if elem = [] then ''/'' else elem)"

definition Ext :: "string \<Rightarrow> string" where
  "Ext path =
     (let elem = rev (takeWhile (\<lambda>c. c \<noteq> CHR ''/'') (rev path))
      in if CHR ''.'' \<in> set elem
         then CHR ''.'' # rev (takeWhile (\<lambda>c. c \<noteq> CHR ''.'') (rev elem))
         else [])"

definition HasSuffix :: "string \<Rightarrow> string \<Rightarrow> bool" where
  "HasSuffix s suf \<longleftrightarrow> length suf \<le> length s \<and> drop (length s - length suf) s = suf"

definition TrimSuffix :: "string \<Rightarrow> string \<Rightarrow> string" where
  "TrimSuffix s suf = (if HasSuffix s suf then take (length s - length suf) s else s)"

subsection \<open>The program: \<^verbatim>\<open>main\<close> (main.go, lines 156 to 195)\<close>

text \<open>
  The command-line options (struct \<^verbatim>\<open>opts\<close>) and the two fields of
  \<^verbatim>\<open>build.Package\<close> that the program reads.
\<close>

record opts =
  kind :: string
  generic :: string
  lib :: bool

record package =
  Name :: string
  PkgRoot :: string

text \<open>
  What the program takes from outside: the parsed options, \<^verbatim>\<open>GOPATH\<close>, the result
  of \<^verbatim>\<open>build.Default.ImportDir(".", 0)\<close> (an error message or the package), the file
  system as seen by \<^verbatim>\<open>ioutil.ReadFile\<close> (an error message or the contents) and by
  \<^verbatim>\<open>ioutil.WriteFile\<close> (the error it returns for a path and a content, if any), and
  the text that \<^verbatim>\<open>time.Now().UTC()\<close> prints as.
\<close>

record world =
  opt :: opts
  GOPATH :: string
  ImportDir :: "string + package"
  ReadFile :: "string \<Rightarrow> string + string"
  WriteFile :: "string \<Rightarrow> string \<Rightarrow> string option"
  Now :: string

text \<open>
  What a run leaves behind: the exit status of the process, the lines it logged, and
  the file it created (path and content), if \<^verbatim>\<open>WriteFile\<close> did create it.
\<close>

record outcome =
  exit_code :: nat
  logged :: "string list"
  written :: "(string \<times> string) option"

text \<open>
  The logger has no flags and the prefix \<^verbatim>\<open>==> golem: \<close>; it ends every entry
  with a newline unless the message already ends with one. \<^verbatim>\<open>log.Fatal\<close> logs its
  argument and exits with status 1.
\<close>

definition log_line :: "string \<Rightarrow> string" where
  "log_line msg =
     ''==> golem: '' @ msg @ (if msg = [] \<or> last msg \<noteq> CHR ''\<newline>'' then ''\<newline>'' else [])"

definition Fatal :: "string \<Rightarrow> outcome" where
  "Fatal err = \<lparr>exit_code = 1, logged = [log_line err], written = None\<rparr>"

text \<open>The local variables of \<^verbatim>\<open>main\<close> that are computed before the template is read
  (lines 167 to 175).\<close>

definition main_source :: "world \<Rightarrow> string" where
  "main_source w = Join [GOPATH w, ''src'', generic (opt w)]"

definition main_generic :: "world \<Rightarrow> string" where
  "main_generic w = TrimSuffix (Base (main_source w)) (Ext (main_source w))"

definition main_filename :: "world \<Rightarrow> string" where
  "main_filename w =
     (if lib (opt w) then kind (opt w) @ ''.go'' else main_generic w @ ''.go'')"

definition main_typename :: "world \<Rightarrow> string" where
  "main_typename w =
     (if lib (opt w) then Title (kind (opt w)) else Title (main_generic w))"

text \<open>The content of the output buffer (lines 182 to 191) for the package \<open>pkg\<close> and the
  template text \<open>input\<close>.\<close>

definition main_output :: "world \<Rightarrow> package \<Rightarrow> string \<Rightarrow> string" where
  "main_output w pkg input =
     (let a = declareType input (kind (opt w));
          b = referenceType a (main_typename w);
          c = repackage b (Name pkg)
      in ''// Code generated by `golem` package\<newline>''
         @ (''// Source: '' @ generic (opt w) @ ''\<newline>'')
         @ (''// Time: '' @ Now w @ ''\<newline>\<newline>'')
         @ c)"

text \<open>
  The whole run. The value that \<^verbatim>\<open>ioutil.WriteFile\<close> returns on line 193 is not
  looked at: whatever it is, line 194 logs the generated name and the program returns
  from \<^verbatim>\<open>main\<close>, which is exit status 0.
\<close>

definition main :: "world \<Rightarrow> outcome" where
  "main w =
     (case ImportDir w of
        Inl err \<Rightarrow> Fatal err
      | Inr pkg \<Rightarrow>
          (case ReadFile w (main_source w) of
             Inl err \<Rightarrow> Fatal err
           | Inr input \<Rightarrow>
               let output = main_output w pkg input;
                   path = Join [PkgRoot pkg, main_filename w];
                   res = WriteFile w path output
               in \<lparr>exit_code = 0,
                   logged = [log_line (main_generic w @ ''.'' @ main_typename w)],
                   written = (case res of None \<Rightarrow> Some (path, output) | Some err \<Rightarrow> None)\<rparr>))"

subsection \<open>Notions used to state the properties\<close>

text \<open>
  A text \<open>ins\<close> that is put into a template can bring a token \<open>tok\<close> back even when
  the texts on both sides do not contain it: \<open>ins\<close> can contain the token, or end
  with its beginning, or begin with its end, or be a middle part of it.
  \<open>reforms tok ins\<close> checks all these ways: it puts a proper beginning of the token
  in front of \<open>ins\<close> and a proper end behind it and looks for the token.
\<close>

definition reforms :: "string \<Rightarrow> string \<Rightarrow> bool" where
  "reforms tok ins \<longleftrightarrow>
     list_ex (\<lambda>i. list_ex (\<lambda>j. sublist tok (take i tok @ ins @ drop j tok))
                    [1..<Suc (length tok)])
       [0..<length tok]"


text \<open>
  What \<^verbatim>\<open>repackage\<close> does to one line of the text, given without its newline: when
  the line contains \<^verbatim>\<open>package \<close> (the word and a space), everything from the first
  instance on becomes \<^verbatim>\<open>package \<close> and the new name.
\<close>

definition rewrite_line :: "string \<Rightarrow> string \<Rightarrow> string" where
  "rewrite_line pkg l =
     (case Index l ''package '' of
        None \<Rightarrow> l
      | Some i \<Rightarrow> take i l @ ''package '' @ pkg)"

subsection \<open>Example inputs\<close>

text \<open>
  The template of the scenario in the specification, the options of a run on
  \<^verbatim>\<open>stack.go\<close>, and a world in which the package is found, the template is where
  \<^verbatim>\<open>GOPATH\<close> says, and writing succeeds or fails as \<open>werr\<close> says.
\<close>

definition stack_template :: string where
  "stack_template =
     ''package stack\<newline>\<newline>type genT interface{}\<newline>\<newline>type AnyT struct { elements []genT }\<newline>''"

definition stack_opts :: "string \<Rightarrow> bool \<Rightarrow> opts" where
  "stack_opts k l =
     \<lparr>kind = k, generic = ''github.com/fogfish/golem/stack/stack.go'', lib = l\<rparr>"

definition demo_world :: "opts \<Rightarrow> string \<Rightarrow> string option \<Rightarrow> world" where
  "demo_world os tmpl werr =
     \<lparr>opt = os,
      GOPATH = ''/go'',
      ImportDir = Inr \<lparr>Name = ''app'', PkgRoot = ''/go/pkg''\<rparr>,
      ReadFile = (\<lambda>p. if p = ''/go/src/github.com/fogfish/golem/stack/stack.go''
                       then Inr tmpl else Inl ''no such file or directory''),
      WriteFile = (\<lambda>p d. werr),
      Now = ''2019-11-24 10:00:00 +0000 UTC''\<rparr>"

section \<open>Properties of the library functions\<close>

lemmas path_defs = main_source_def main_generic_def main_filename_def main_typename_def
  Join_def Clean_def clean_step_def Base_def Ext_def TrimSuffix_def HasSuffix_def
lemmas title_defs = Title_def isSeparator_def ToTitle_def
lemmas rewrite_defs = repackage_def re_ReplaceAll.simps find_match_def referenceType_def
  declareType_def ReplaceAll_def Replace.simps


lemma Index_None_iff: "Index s sep = None \<longleftrightarrow> \<not> sublist sep s"
  by (induction s) (auto simp: sublist_Cons_right)

lemma Index_Some_decomp:
  "Index s sep = Some j \<Longrightarrow> s = take j s @ sep @ drop (j + length sep) s"
proof (induction s arbitrary: j)
  case Nil
  then show ?case by (simp split: if_splits)
next
  case (Cons c cs)
  show ?case
  proof (cases "prefix sep (c # cs)")
    case True
    with Cons.prems have "j = 0" by simp
    with True show ?thesis by (auto simp: prefix_def)
  next
    case False
    with Cons.prems obtain k where k: "Index cs sep = Some k" "j = Suc k" by auto
    from Cons.IH [OF k(1)] k(2) show ?thesis by simp
  qed
qed

lemma Index_Some_first:
  "Index s sep = Some j \<Longrightarrow> sep \<noteq> [] \<Longrightarrow> \<not> sublist sep (take j s)"
proof (induction s arbitrary: j)
  case Nil
  then show ?case by simp
next
  case (Cons c cs)
  show ?case
  proof (cases "prefix sep (c # cs)")
    case True
    with Cons.prems show ?thesis by simp
  next
    case False
    with Cons.prems obtain k where k: "Index cs sep = Some k" "j = Suc k" by auto
    have "\<not> prefix sep (c # take k cs)"
    proof
      assume "prefix sep (c # take k cs)"
      moreover have "prefix (c # take k cs) (c # cs)" by (simp add: take_is_prefix)
      ultimately have "prefix sep (c # cs)" by (rule prefix_order.trans)
      with False show False ..
    qed
    with Cons.IH [OF k(1) Cons.prems(2)] k(2) show ?thesis
      by (simp add: sublist_Cons_right)
  qed
qed

lemma reformsI:
  assumes "i < length tok" "1 \<le> j" "j \<le> length tok"
    and "sublist tok (take i tok @ ins @ drop j tok)"
  shows "reforms tok ins"
proof -
  have "i \<in> set [0..<length tok]" and "j \<in> set [1..<Suc (length tok)]"
    using assms(1-3) by auto
  with assms(4) show ?thesis
    unfolding reforms_def list_ex_iff by blast
qed

lemma reforms_sound:
  assumes nr: "\<not> reforms tok ins" and u: "\<not> sublist tok u" and v: "\<not> sublist tok v"
  shows "\<not> sublist tok (u @ ins @ v)"
proof
  assume s: "sublist tok (u @ ins @ v)"
  from u have ne: "tok \<noteq> []" by auto
  then have len: "0 < length tok" and len1: "1 \<le> length tok"
    by (cases tok; simp)+
  from s u consider
      (right) "sublist tok (ins @ v)"
    | (span) x1 x2 where "tok = x1 @ x2" "suffix x1 u" "prefix x2 (ins @ v)"
    by (auto simp: sublist_append)
  then show False
  proof cases
    case right
    with v consider
        (inside) "sublist tok ins"
      | (out) y1 y2 where "tok = y1 @ y2" "suffix y1 ins" "prefix y2 v"
      by (auto simp: sublist_append)
    then show False
    proof cases
      case inside
      have "reforms tok ins"
        by (rule reformsI [of 0 _ "length tok"]) (use len len1 inside in simp_all)
      with nr show False ..
    next
      case out
      from out(1,3) v have "y1 \<noteq> []" by auto
      from out(2) obtain z where z: "ins = z @ y1" by (auto simp: suffix_def)
      have "reforms tok ins"
      proof (rule reformsI [of 0 _ "length y1"])
        have "take 0 tok @ ins @ drop (length y1) tok = z @ tok"
          using out(1) z by simp
        then show "sublist tok (take 0 tok @ ins @ drop (length y1) tok)"
          by simp
      qed (use len out(1) \<open>y1 \<noteq> []\<close> in \<open>simp_all add: Suc_le_eq\<close>)
      with nr show False ..
    qed
  next
    case span
    from span(1,2) u have x2: "x2 \<noteq> []" by auto
    from span(3) consider
        (short) "prefix x2 ins"
      | (long) w where "x2 = ins @ w" "prefix w v"
      by (auto simp: prefix_append)
    then show False
    proof cases
      case short
      then obtain r where "ins = x2 @ r" by (auto simp: prefix_def)
      have "reforms tok ins"
      proof (rule reformsI [of "length x1" _ "length tok"])
        have "take (length x1) tok @ ins @ drop (length tok) tok = tok @ r"
          using span(1) \<open>ins = x2 @ r\<close> by simp
        then show "sublist tok (take (length x1) tok @ ins @ drop (length tok) tok)"
          by simp
      qed (use len span(1) x2 in \<open>simp_all add: Suc_le_eq\<close>)
      with nr show False ..
    next
      case long
      have wt: "w \<noteq> tok" using long(2) v by auto
      have "reforms tok ins"
      proof (rule reformsI [of "length x1" _ "length x1 + length ins"])
        show "sublist tok (take (length x1) tok @ ins @ drop (length x1 + length ins) tok)"
          using span(1) long(1) by simp
        show "1 \<le> length x1 + length ins"
          using span(1) long(1) wt by (cases x1; cases ins) simp_all
      qed (use len span(1) long(1) x2 in \<open>simp_all add: Suc_le_eq\<close>)
      with nr show False ..
    qed
  qed
qed


lemma sublist_free_take: "\<not> sublist tok s \<Longrightarrow> \<not> sublist tok (take i s)"
  using sublist_order.order.trans [of tok "take i s" s] by auto

lemma sublist_free_drop: "\<not> sublist tok s \<Longrightarrow> \<not> sublist tok (drop i s)"
  using sublist_order.order.trans [of tok "drop i s" s] by auto

lemma Replace_free:
  assumes nr: "\<not> reforms tok new"
  shows "\<not> sublist tok s \<Longrightarrow> \<not> sublist tok (Replace s old new n)"
proof (induction s arbitrary: n rule: length_induct)
  case (1 s)
  show ?case
  proof (cases "n = 0 \<or> old = []")
    case True
    with "1.prems" show ?thesis by (simp add: Replace.simps)
  next
    case False
    show ?thesis
    proof (cases "Index s old")
      case None
      with False "1.prems" show ?thesis by (simp add: Replace.simps)
    next
      case (Some j)
      from False Some have "length (drop (j + length old) s) < length s"
        using Index_shrinks [of old s j] by simp
      with "1.IH" sublist_free_drop [OF "1.prems"]
      have "\<not> sublist tok (Replace (drop (j + length old) s) old new (n - 1))"
        by blast
      from reforms_sound [OF nr sublist_free_take [OF "1.prems"] this] False Some
      show ?thesis by (simp add: Replace.simps [of s])
    qed
  qed
qed

lemma Replace_all_gone:
  assumes nr: "\<not> reforms old new" and ne: "old \<noteq> []"
  shows "n < 0 \<Longrightarrow> \<not> sublist old (Replace s old new n)"
proof (induction s arbitrary: n rule: length_induct)
  case (1 s)
  from "1.prems" ne have go: "\<not> (n = 0 \<or> old = [])" by simp
  show ?case
  proof (cases "Index s old")
    case None
    then have "\<not> sublist old s" by (simp add: Index_None_iff)
    with go None show ?thesis by (simp add: Replace.simps)
  next
    case (Some j)
    from Index_Some_first [OF Some ne] have u: "\<not> sublist old (take j s)" .
    from "1.prems" have "n - 1 < 0" by simp
    moreover from Some ne have "length (drop (j + length old) s) < length s"
      using Index_shrinks [of old s j] by simp
    ultimately have "\<not> sublist old (Replace (drop (j + length old) s) old new (n - 1))"
      using "1.IH" by blast
    from reforms_sound [OF nr u this] go Some show ?thesis
      by (simp add: Replace.simps [of s])
  qed
qed

lemma expand_plain: "CHR ''$'' \<notin> set t \<Longrightarrow> expand t whole group1 = t"
  by (induction t) auto

lemma re_ReplaceAll_free:
  assumes nr: "\<not> reforms tok repl" and nd: "CHR ''$'' \<notin> set repl"
  shows "\<not> sublist tok s \<Longrightarrow> \<not> sublist tok (re_ReplaceAll s repl)"
proof (induction s rule: length_induct)
  case (1 s)
  show ?case
  proof (cases "find_match s")
    case None
    with "1.prems" show ?thesis by (simp add: re_ReplaceAll.simps)
  next
    case (Some m)
    obtain i k where m: "m = (i, k)" by (cases m)
    from Some m have "length (drop (i + 8 + k + 1) s) < length s"
      using find_match_shrinks [of s i k] by simp
    with "1.IH" sublist_free_drop [OF "1.prems"]
    have "\<not> sublist tok (re_ReplaceAll (drop (i + 8 + k + 1) s) repl)"
      by blast
    from reforms_sound [OF nr sublist_free_take [OF "1.prems"] this] Some m nd
    show ?thesis by (simp add: re_ReplaceAll.simps [of s] expand_plain)
  qed
qed


lemma sublist_split_at:
  assumes "c \<notin> set tok"
  shows "sublist tok (xs @ c # ys) \<longleftrightarrow> sublist tok xs \<or> sublist tok ys"
proof
  assume "sublist tok (xs @ c # ys)"
  then consider "sublist tok xs" | "sublist tok (c # ys)"
    | x1 x2 where "tok = x1 @ x2" "suffix x1 xs" "prefix x2 (c # ys)"
    by (auto simp: sublist_append)
  then show "sublist tok xs \<or> sublist tok ys"
  proof cases
    case 1
    then show ?thesis ..
  next
    case 2
    then have "prefix tok (c # ys) \<or> sublist tok ys" by (simp add: sublist_Cons_right)
    with assms show ?thesis by (cases tok) auto
  next
    case 3
    with assms have "x2 = []" by (cases x2) auto
    with 3 show ?thesis by auto
  qed
next
  assume "sublist tok xs \<or> sublist tok ys"
  then show "sublist tok (xs @ c # ys)"
    by (auto simp: sublist_append sublist_Cons_right)
qed

lemma package_line_safe:
  assumes "\<not> sublist ''genT'' pkg"
  shows "\<not> reforms ''genT'' (''package '' @ pkg @ ''\<newline>'')"
  using assms
  by (simp add: reforms_def sublist_Cons_right sublist_split_at)


lemma Replace_absent: "\<not> sublist old s \<Longrightarrow> Replace s old new n = s"
  by (simp add: Replace.simps [of s] Index_None_iff [symmetric])

lemma ToTitle_not_lower: "ToTitle c \<notin> set ''abcdefghijklmnopqrstuvwxyz''"
  by (simp add: ToTitle_def)

lemma Title_first_not_lower:
  "Title s = c # cs \<Longrightarrow> c \<notin> set ''abcdefghijklmnopqrstuvwxyz''"
proof -
  assume a: "Title s = c # cs"
  then obtain d ds where "s = d # ds" by (cases s) (auto simp: Title_def)
  with a have "c = ToTitle d" by (simp add: Title_def isSeparator_def)
  then show ?thesis using ToTitle_not_lower [of d] by simp
qed

lemma Index_Nil: "Index s [] = Some 0"
  by (cases s) simp_all

lemma Index_before:
  "\<exists>i\<le>length pre. Index (pre @ sep @ rest) sep = Some i"
proof (induction pre)
  case Nil
  show ?case by (cases sep) (simp_all add: Index_Nil)
next
  case (Cons c pre)
  then obtain i where "i \<le> length pre" "Index (pre @ sep @ rest) sep = Some i" by blast
  then show ?case by auto
qed

lemma find_match_Some_decomp:
  assumes "find_match s = Some (i, k)"
  shows "s = take i s @ ''package '' @ take k (drop (i + 8) s) @ ''\<newline>''
             @ drop (i + 8 + k + 1) s"
proof -
  define P where "P = ''package ''"
  define N where "N = ''\<newline>''"
  have lP: "length P = 8" and lN: "length N = 1" by (simp_all add: P_def N_def)
  from assms have a: "Index s P = Some i" and b: "Index (drop (i + 8) s) N = Some k"
    by (auto simp: find_match_def P_def N_def split: option.splits)
  from Index_Some_decomp [OF a] lP have 1: "s = take i s @ P @ drop (i + 8) s" by simp
  have "drop (k + 1) (drop (i + 8) s) = drop (i + 8 + k + 1) s"
    by (simp add: add.commute add.left_commute)
  with Index_Some_decomp [OF b] lN
  have 2: "drop (i + 8) s = take k (drop (i + 8) s) @ N @ drop (i + 8 + k + 1) s" by simp
  from 1 2 have "s = take i s @ P @ take k (drop (i + 8) s) @ N @ drop (i + 8 + k + 1) s"
    by simp
  then show ?thesis unfolding P_def N_def .
qed

lemma find_match_None_iff:
  "find_match s = None \<longleftrightarrow> (\<forall>pre x post. s \<noteq> pre @ ''package '' @ x @ ''\<newline>'' @ post)"
proof
  assume n: "find_match s = None"
  show "\<forall>pre x post. s \<noteq> pre @ ''package '' @ x @ ''\<newline>'' @ post"
  proof (intro allI notI)
    fix pre x post
    define P where "P = ''package ''"
    define N where "N = ''\<newline>''"
    have lP: "length P = 8" by (simp add: P_def)
    assume "s = pre @ ''package '' @ x @ ''\<newline>'' @ post"
    then have s: "s = pre @ P @ x @ N @ post" by (simp add: P_def N_def)
    from Index_before [of pre P "x @ N @ post"] s
    obtain i where i: "i \<le> length pre" "Index s P = Some i" by auto
    from i(1) lP have "drop (i + 8) s = drop (i + 8) (pre @ P) @ x @ N @ post"
      unfolding s by simp
    then have "drop (i + 8) s = (drop (i + 8) (pre @ P) @ x) @ N @ post" by simp
    then have "sublist N (drop (i + 8) s)"
      using sublist_appendI [of N "drop (i + 8) (pre @ P) @ x" post] by simp
    then obtain k where "Index (drop (i + 8) s) N = Some k"
      using Index_None_iff [of "drop (i + 8) s" N] by (cases "Index (drop (i + 8) s) N") auto
    with i(2) n show False by (simp add: find_match_def P_def N_def)
  qed
next
  assume a: "\<forall>pre x post. s \<noteq> pre @ ''package '' @ x @ ''\<newline>'' @ post"
  show "find_match s = None"
  proof (cases "find_match s")
    case None
    then show ?thesis .
  next
    case (Some m)
    obtain i k where "m = (i, k)" by (cases m)
    with Some find_match_Some_decomp [of s i k] a show ?thesis by blast
  qed
qed

lemma Index_append_found:
  "Index l sep = Some i \<Longrightarrow> Index (l @ r) sep = Some i"
proof (induction l arbitrary: i)
  case Nil
  then show ?case by (simp add: Index_Nil split: if_splits)
next
  case (Cons c l)
  show ?case
  proof (cases "prefix sep (c # l)")
    case True
    then have "prefix sep ((c # l) @ r)" by (rule prefix_prefix)
    with True Cons.prems show ?thesis by simp
  next
    case False
    with Cons.prems obtain j where j: "Index l sep = Some j" "i = Suc j" by auto
    have "\<not> prefix sep ((c # l) @ r)"
    proof
      assume "prefix sep ((c # l) @ r)"
      with False obtain us where "sep = (c # l) @ us"
        using prefix_append [of sep "c # l" r] by auto
      with Index_bound [OF j(1)] show False by simp
    qed
    with Cons.IH [OF j(1)] j(2) show ?thesis by simp
  qed
qed

lemma Index_skip_line:
  assumes "Index l sep = None" and "c \<notin> set sep"
  shows "Index (l @ c # r) sep = map_option (\<lambda>j. length l + 1 + j) (Index r sep)"
  using assms(1)
proof (induction l)
  case Nil
  then have "sep \<noteq> []" by (auto split: if_splits)
  with assms(2) have "\<not> prefix sep (c # r)" by (cases sep) auto
  then show ?case by (simp add: option.map_ident cong: option.map_cong)
next
  case (Cons a l)
  then have np: "\<not> prefix sep (a # l)" and n: "Index l sep = None"
    by (auto split: if_splits)
  have "\<not> prefix sep ((a # l) @ c # r)"
  proof
    assume "prefix sep ((a # l) @ c # r)"
    with np obtain us where us: "sep = (a # l) @ us" "prefix us (c # r)"
      using prefix_append [of sep "a # l" "c # r"] by auto
    from us(1) np have "us \<noteq> []" by auto
    with us(2) have "c \<in> set us" by (cases us) auto
    with us(1) assms(2) show False by simp
  qed
  with Cons.IH [OF n] show ?case by (simp add: option.map_comp comp_def)
qed

lemma Index_char:
  "c \<notin> set l \<Longrightarrow> Index (l @ c # r) [c] = Some (length l)"
  by (induction l) auto

lemma re_ReplaceAll_no_match: "find_match t = None \<Longrightarrow> re_ReplaceAll t repl = t"
  by (simp add: re_ReplaceAll.simps [of t])

lemma re_ReplaceAll_line:
  assumes nl: "CHR ''\<newline>'' \<notin> set l"
  shows "re_ReplaceAll (l @ ''\<newline>'' @ r) repl =
           (case Index l ''package '' of
              None \<Rightarrow> l @ ''\<newline>''
            | Some i \<Rightarrow> take i l @ expand repl (drop i l @ ''\<newline>'') (drop (i + 8) l))
           @ re_ReplaceAll r repl"
proof -
  define P where "P = ''package ''"
  define N where "N = CHR ''\<newline>''"
  define s where "s = l @ N # r"
  have lP: "length P = 8" and NP: "N \<notin> set P" by (simp_all add: P_def N_def)
  have fm: "find_match t =
      (case Index t P of None \<Rightarrow> None
       | Some i \<Rightarrow> (case Index (drop (i + 8) t) [N] of None \<Rightarrow> None | Some k \<Rightarrow> Some (i, k)))"
    for t unfolding find_match_def P_def N_def ..
  have goal: "re_ReplaceAll s repl =
           (case Index l P of
              None \<Rightarrow> l @ [N]
            | Some i \<Rightarrow> take i l @ expand repl (drop i l @ [N]) (drop (i + 8) l))
           @ re_ReplaceAll r repl"
  proof (cases "Index l P")
    case (Some i)
    from Index_bound [OF Some] lP have b: "i + 8 \<le> length l" by simp
    from Index_append_found [OF Some] have 1: "Index s P = Some i" by (simp add: s_def)
    from b have 2: "drop (i + 8) s = drop (i + 8) l @ N # r" by (simp add: s_def)
    from nl have "N \<notin> set (drop (i + 8) l)" by (auto simp: N_def dest: in_set_dropD)
    from Index_char [OF this] have 3: "Index (drop (i + 8) s) [N] = Some (length l - (i + 8))"
      by (simp add: 2)
    from 1 3 have m: "find_match s = Some (i, length l - (i + 8))" by (simp add: fm)
    from b have t: "take i s = take i l" by (simp add: s_def)
    from b have w: "take (8 + (length l - (i + 8)) + 1) (drop i s) = drop i l @ [N]"
      by (simp add: s_def)
    from b have g: "take (length l - (i + 8)) (drop (i + 8) s) = drop (i + 8) l"
      by (simp add: 2)
    from b have d: "drop (i + 8 + (length l - (i + 8)) + 1) s = r" by (simp add: s_def)
    show ?thesis
      by (subst re_ReplaceAll.simps) (simp only: m Some option.case prod.case t w g d append_assoc)
  next
    case None
    from Index_skip_line [OF None NP]
    have 1: "Index s P = map_option (\<lambda>j. length l + 1 + j) (Index r P)" by (simp add: s_def)
    have dr: "drop (length l + 1 + n) s = drop n r" for n by (simp add: s_def)
    have 2: "drop (length l + 1 + j + 8) s = drop (j + 8) r" for j
      using dr [of "j + 8"] by (simp add: add.assoc)
    have m: "find_match s = map_option (\<lambda>(j, k). (length l + 1 + j, k)) (find_match r)"
    proof (cases "Index r P")
      case None
      with 1 have "Index s P = None" by simp
      with None show ?thesis by (simp add: fm)
    next
      case (Some j)
      with 1 have "Index s P = Some (length l + 1 + j)" by simp
      then have "find_match s =
          (case Index (drop (length l + 1 + j + 8) s) [N] of
             None \<Rightarrow> None | Some k \<Rightarrow> Some (length l + 1 + j, k))"
        by (simp only: fm [of s] option.case)
      then have a: "find_match s =
          (case Index (drop (j + 8) r) [N] of
             None \<Rightarrow> None | Some k \<Rightarrow> Some (length l + 1 + j, k))"
        by (simp only: 2)
      from Some have b: "find_match r =
          (case Index (drop (j + 8) r) [N] of None \<Rightarrow> None | Some k \<Rightarrow> Some (j, k))"
        by (simp only: fm [of r] option.case)
      show ?thesis unfolding a b by (cases "Index (drop (j + 8) r) [N]") simp_all
    qed
    show ?thesis
    proof (cases "find_match r")
      case None
      with m have "find_match s = None" by simp
      with None have "re_ReplaceAll s repl = s" and "re_ReplaceAll r repl = r"
        by (simp_all add: re_ReplaceAll_no_match)
      with \<open>Index l P = None\<close> show ?thesis by (simp add: s_def)
    next
      case (Some jk)
      obtain j k where jk: "jk = (j, k)" by (cases jk)
      from m Some jk have ms: "find_match s = Some (length l + 1 + j, k)" by simp
      have t: "take (length l + 1 + j) s = l @ [N] @ take j r" by (simp add: s_def)
      have w: "drop (length l + 1 + j) s = drop j r" by (rule dr)
      have g: "drop (length l + 1 + j + 8) s = drop (j + 8) r" by (rule 2)
      have d: "drop (length l + 1 + j + 8 + k + 1) s = drop (j + 8 + k + 1) r"
        using dr [of "j + 8 + k + 1"] by (simp add: add.assoc)
      have "re_ReplaceAll s repl = l @ [N] @ re_ReplaceAll r repl"
        by (subst re_ReplaceAll.simps, subst (2) re_ReplaceAll.simps)
          (simp only: ms Some jk option.case prod.case t w g d append_assoc)
      with \<open>Index l P = None\<close> show ?thesis by simp
    qed
  qed
  then show ?thesis unfolding s_def P_def N_def by simp
qed

lemma no_newline_no_match:
  assumes "CHR ''\<newline>'' \<notin> set t"
  shows "find_match t = None"
  unfolding find_match_None_iff
proof (intro allI notI)
  fix pre x post
  assume "t = pre @ ''package '' @ x @ ''\<newline>'' @ post"
  then have "CHR ''\<newline>'' \<in> set t" by simp
  with assms show False ..
qed

section \<open>Properties of the program\<close>

text \<open>
  C1 (as stated): after \<^verbatim>\<open>declareType\<close>, \<^verbatim>\<open>referenceType\<close> and \<^verbatim>\<open>repackage\<close> no
  \<^verbatim>\<open>genT\<close> is left in a template that contains \<^verbatim>\<open>type genT interface{}\<close>, for any
  target type. This fails for the target type \<^verbatim>\<open>T\<close>: the new alias name is
  \<^verbatim>\<open>gen\<close> followed by the capitalised type, which is \<^verbatim>\<open>genT\<close> again.
\<close>

theorem alias_token_gone_counterexample:
  "sublist ''type genT interface{}'' ''package stack\<newline>type genT interface{}\<newline>''
   \<and> sublist ''genT''
        (repackage
          (referenceType (declareType ''package stack\<newline>type genT interface{}\<newline>'' ''T'') ''T'')
          ''main'')"
  by (simp add: repackage_def re_ReplaceAll.simps find_match_def referenceType_def
      declareType_def ReplaceAll_def Replace.simps Title_def isSeparator_def ToTitle_def
      sublist_Cons_right)

text \<open>
  C1 (amended): for every template, no \<^verbatim>\<open>genT\<close> is left in the output when none of
  the texts that are put in can bring it back: the new alias name (\<^verbatim>\<open>gen\<close> and the
  capitalised target type) and the concrete type name do not re-form \<^verbatim>\<open>genT\<close>, and
  the package name contains neither \<^verbatim>\<open>genT\<close> nor a dollar sign.
\<close>

theorem alias_token_gone:
  assumes "\<not> reforms ''genT'' (''gen'' @ Title knd)"
    and "\<not> reforms ''genT'' tname"
    and "\<not> sublist ''genT'' pkg"
    and "CHR ''$'' \<notin> set pkg"
  shows "\<not> sublist ''genT'' (repackage (referenceType (declareType file knd) tname) pkg)"
proof -
  have a: "\<not> sublist ''genT'' (declareType file knd)"
    unfolding declareType_def Let_def ReplaceAll_def
    by (rule Replace_all_gone [OF assms(1)]) simp_all
  have b: "\<not> sublist ''genT'' (referenceType (declareType file knd) tname)"
    unfolding referenceType_def ReplaceAll_def
    by (rule Replace_free [OF assms(2) a])
  show ?thesis
    unfolding repackage_def
    by (rule re_ReplaceAll_free [OF package_line_safe [OF assms(3)] _ b])
      (use assms(4) in simp)
qed

theorem alias_token_gone_witness:
  "\<not> reforms ''genT'' (''gen'' @ Title ''int'')
   \<and> \<not> reforms ''genT'' ''Int''
   \<and> \<not> sublist ''genT'' ''main''
   \<and> CHR ''$'' \<notin> set ''main''
   \<and> \<not> sublist ''genT''
        (repackage
          (referenceType
            (declareType ''package stack\<newline>type genT interface{}\<newline>type AnyT []genT\<newline>'' ''int'')
            ''Int'')
          ''main'')"
proof -
  have h1: "\<not> reforms ''genT'' (''gen'' @ Title ''int'')"
    by (simp add: reforms_def Title_def isSeparator_def ToTitle_def sublist_Cons_right)
  have h2: "\<not> reforms ''genT'' ''Int''"
    by (simp add: reforms_def sublist_Cons_right)
  have h3: "\<not> sublist ''genT'' ''main''"
    by (simp add: sublist_Cons_right)
  have h4: "CHR ''$'' \<notin> set ''main''"
    by simp
  from alias_token_gone [OF h1 h2 h3 h4] h1 h2 h3 h4 show ?thesis
    by blast
qed

text \<open>
  C2 (as stated): the program replaces every \<^verbatim>\<open>AnyT\<close> by the target type in the
  caller's casing (\<^verbatim>\<open>int8\<close>, not \<^verbatim>\<open>Int8\<close>), in both modes. A library-mode run with
  the type \<^verbatim>\<open>int8\<close> writes \<^verbatim>\<open>type Int8 struct\<close>: \<^verbatim>\<open>main\<close> passes the capitalised
  \<^verbatim>\<open>typename\<close> to \<^verbatim>\<open>referenceType\<close>, not the option.
\<close>

theorem concrete_type_casing_counterexample:
  "main_output (demo_world (stack_opts ''int8'' True) stack_template None)
       \<lparr>Name = ''app'', PkgRoot = ''/go/pkg''\<rparr> stack_template
     = ''// Code generated by `golem` package\<newline>''
       @ ''// Source: github.com/fogfish/golem/stack/stack.go\<newline>''
       @ ''// Time: 2019-11-24 10:00:00 +0000 UTC\<newline>\<newline>''
       @ ''package app\<newline>\<newline>type genInt8 int8\<newline>\<newline>type Int8 struct { elements []genInt8 }\<newline>''
   \<and> \<not> sublist ''type int8 struct''
         (main_output (demo_world (stack_opts ''int8'' True) stack_template None)
            \<lparr>Name = ''app'', PkgRoot = ''/go/pkg''\<rparr> stack_template)"
proof -
  have "main_output (demo_world (stack_opts ''int8'' True) stack_template None)
       \<lparr>Name = ''app'', PkgRoot = ''/go/pkg''\<rparr> stack_template
     = ''// Code generated by `golem` package\<newline>''
       @ ''// Source: github.com/fogfish/golem/stack/stack.go\<newline>''
       @ ''// Time: 2019-11-24 10:00:00 +0000 UTC\<newline>\<newline>''
       @ ''package app\<newline>\<newline>type genInt8 int8\<newline>\<newline>type Int8 struct { elements []genInt8 }\<newline>''"
    by (simp add: main_output_def demo_world_def stack_opts_def stack_template_def
        main_typename_def rewrite_defs title_defs)
  then show ?thesis by (simp add: sublist_Cons_right)
qed

text \<open>
  C2 (amended): in the file that a run writes, \<^verbatim>\<open>AnyT\<close> is replaced by the
  capitalised target type in library mode and by the capitalised generic name in
  application mode, a name that never begins with a lower-case letter; the caller's
  casing is used only on the right of the alias declaration
  (\<^verbatim>\<open>type genInt8 int8\<close>), and the alias name is \<^verbatim>\<open>gen\<close> followed by the
  capitalised target type in both modes.
\<close>

theorem concrete_type_casing:
  assumes "ImportDir w = Inr pkg"
    and "ReadFile w (main_source w) = Inr input"
    and "WriteFile w (Join [PkgRoot pkg, main_filename w]) (main_output w pkg input) = None"
  shows "written (main w) =
           Some (Join [PkgRoot pkg, main_filename w],
                 ''// Code generated by `golem` package\<newline>''
                 @ ''// Source: '' @ generic (opt w) @ ''\<newline>''
                 @ ''// Time: '' @ Now w @ ''\<newline>\<newline>''
                 @ repackage
                     (ReplaceAll
                        (ReplaceAll
                           (Replace input ''type genT interface{}''
                              (''type gen'' @ Title (kind (opt w)) @ '' '' @ kind (opt w)) 1)
                           ''genT'' (''gen'' @ Title (kind (opt w))))
                        ''AnyT''
                        (Title (if lib (opt w) then kind (opt w) else main_generic w)))
                     (Name pkg))
       \<and> (\<forall>c cs. Title (if lib (opt w) then kind (opt w) else main_generic w) = c # cs
            \<longrightarrow> c \<notin> set ''abcdefghijklmnopqrstuvwxyz'')"
proof -
  have "main_typename w = Title (if lib (opt w) then kind (opt w) else main_generic w)"
    by (simp add: main_typename_def)
  with assms show ?thesis
    by (auto simp: main_def main_output_def Let_def declareType_def referenceType_def
        dest: Title_first_not_lower)
qed

theorem concrete_type_casing_witness:
  "ImportDir (demo_world (stack_opts ''int8'' True) stack_template None)
     = Inr \<lparr>Name = ''app'', PkgRoot = ''/go/pkg''\<rparr>
   \<and> written (main (demo_world (stack_opts ''int8'' True) stack_template None)) =
       Some (''/go/pkg/int8.go'',
             ''// Code generated by `golem` package\<newline>''
             @ ''// Source: github.com/fogfish/golem/stack/stack.go\<newline>''
             @ ''// Time: 2019-11-24 10:00:00 +0000 UTC\<newline>\<newline>''
             @ ''package app\<newline>\<newline>type genInt8 int8\<newline>\<newline>type Int8 struct { elements []genInt8 }\<newline>'')
   \<and> Title ''int8'' = ''Int8''"
proof -
  let ?w = "demo_world (stack_opts ''int8'' True) stack_template None"
  have i: "ImportDir ?w = Inr \<lparr>Name = ''app'', PkgRoot = ''/go/pkg''\<rparr>"
    by (simp add: demo_world_def)
  have s: "main_source ?w = ''/go/src/github.com/fogfish/golem/stack/stack.go''"
    by (simp add: demo_world_def stack_opts_def path_defs)
  have r: "ReadFile ?w (main_source ?w) = Inr stack_template"
    unfolding s by (simp add: demo_world_def)
  have x: "WriteFile ?w p d = None" for p d
    by (simp add: demo_world_def)
  have f: "main_filename ?w = ''int8.go''"
    by (simp add: demo_world_def stack_opts_def main_filename_def)
  have o: "generic (opt ?w) = ''github.com/fogfish/golem/stack/stack.go''"
    "kind (opt ?w) = ''int8''" "lib (opt ?w)"
    and n: "Now ?w = ''2019-11-24 10:00:00 +0000 UTC''"
    by (simp_all add: demo_world_def stack_opts_def)
  have t: "Title ''int8'' = ''Int8''"
    by (simp add: title_defs)
  have b: "repackage
            (ReplaceAll
              (ReplaceAll
                (Replace stack_template ''type genT interface{}'' ''type genInt8 int8'' 1)
                ''genT'' ''genInt8'')
              ''AnyT'' ''Int8'')
            ''app''
      = ''package app\<newline>\<newline>type genInt8 int8\<newline>\<newline>type Int8 struct { elements []genInt8 }\<newline>''"
    by (simp add: stack_template_def repackage_def re_ReplaceAll.simps find_match_def
        ReplaceAll_def Replace.simps)
  from concrete_type_casing [OF i r x] i t show ?thesis
    by (simp add: f o n t b Join_def Clean_def clean_step_def)
qed

text \<open>
  C3 (as stated): \<^verbatim>\<open>repackage\<close> changes the package declaration and no other line,
  also not a comment that contains the word \<^verbatim>\<open>package\<close>. The pattern is not bound
  to the beginning of a line and every match is replaced: in the comment line below,
  the text from \<^verbatim>\<open>package \<close> on is replaced too.
\<close>

theorem package_lines_counterexample:
  "repackage ''// the package of stacks\<newline>package stack\<newline>'' ''main''
     = ''// the package main\<newline>package main\<newline>''
   \<and> repackage ''// the package of stacks\<newline>package stack\<newline>'' ''main''
     \<noteq> ''// the package of stacks\<newline>package main\<newline>''"
  by (simp add: repackage_def re_ReplaceAll.simps find_match_def)

text \<open>
  C3 (amended): for a package name without a dollar sign, \<^verbatim>\<open>repackage\<close> rewrites
  every line that ends with a newline and contains \<^verbatim>\<open>package \<close>: the line from the
  first \<^verbatim>\<open>package \<close> to its end becomes \<^verbatim>\<open>package \<close> and the new name. What
  stands before that on the line, every line without \<^verbatim>\<open>package \<close>, and a last line
  without a newline stay as they are.
\<close>

theorem package_lines:
  assumes "\<forall>l\<in>set ls. CHR ''\<newline>'' \<notin> set l"
    and "CHR ''\<newline>'' \<notin> set rest"
    and "CHR ''$'' \<notin> set pkg"
  shows "repackage (concat (map (\<lambda>l. l @ ''\<newline>'') ls) @ rest) pkg
           = concat (map (\<lambda>l. rewrite_line pkg l @ ''\<newline>'') ls) @ rest"
  using assms(1)
proof (induction ls)
  case Nil
  from no_newline_no_match [OF assms(2)] show ?case
    by (simp add: repackage_def re_ReplaceAll_no_match)
next
  case (Cons l ls)
  then have nl: "CHR ''\<newline>'' \<notin> set l" and others: "\<forall>l\<in>set ls. CHR ''\<newline>'' \<notin> set l"
    by simp_all
  define r where "r = concat (map (\<lambda>l. l @ ''\<newline>'') ls) @ rest"
  define repl where "repl = ''package '' @ pkg @ ''\<newline>''"
  from assms(3) have pl: "expand repl whole group1 = repl" for whole group1
    by (simp add: repl_def expand_plain)
  from Cons.IH [OF others]
  have ih: "re_ReplaceAll r repl = concat (map (\<lambda>l. rewrite_line pkg l @ ''\<newline>'') ls) @ rest"
    by (simp add: repackage_def r_def repl_def)
  have "re_ReplaceAll (l @ ''\<newline>'' @ r) repl = (rewrite_line pkg l @ ''\<newline>'') @ re_ReplaceAll r repl"
    unfolding re_ReplaceAll_line [OF nl] pl
    by (cases "Index l ''package ''") (simp_all add: rewrite_line_def repl_def)
  with ih have "re_ReplaceAll (l @ ''\<newline>'' @ r) repl
      = concat (map (\<lambda>l. rewrite_line pkg l @ ''\<newline>'') (l # ls)) @ rest"
    by simp
  then show ?case by (simp add: repackage_def r_def repl_def)
qed

theorem package_lines_witness:
  "CHR ''\<newline>'' \<notin> set ''// the package of stacks''
   \<and> CHR ''\<newline>'' \<notin> set ''package stack''
   \<and> CHR ''\<newline>'' \<notin> set ''type genT interface{}''
   \<and> CHR ''\<newline>'' \<notin> set ''// package end''
   \<and> CHR ''$'' \<notin> set ''main''
   \<and> repackage ''// the package of stacks\<newline>package stack\<newline>type genT interface{}\<newline>// package end'' ''main''
       = ''// the package main\<newline>package main\<newline>type genT interface{}\<newline>// package end''"
proof -
  have h1: "\<forall>l\<in>set [''// the package of stacks'', ''package stack'', ''type genT interface{}''].
       CHR ''\<newline>'' \<notin> set l" by simp
  have h2: "CHR ''\<newline>'' \<notin> set ''// package end''" by simp
  have h3: "CHR ''$'' \<notin> set ''main''" by simp
  from package_lines [OF h1 h2 h3] show ?thesis
    by (simp add: rewrite_line_def)
qed

text \<open>
  C4 (as stated): in a template without \<^verbatim>\<open>type genT interface{}\<close> every
  \<^verbatim>\<open>genT\<close> stays as it is. The second step of \<^verbatim>\<open>declareType\<close> does not depend on
  the first: it rewrites \<^verbatim>\<open>genT\<close> here too.
\<close>

theorem missing_declaration_counterexample:
  "\<not> sublist ''type genT interface{}'' ''package stack\<newline>type AnyT []genT\<newline>''
   \<and> sublist ''genT'' ''package stack\<newline>type AnyT []genT\<newline>''
   \<and> repackage (referenceType (declareType ''package stack\<newline>type AnyT []genT\<newline>'' ''int'') ''Int'') ''app''
       = ''package app\<newline>type Int []genInt\<newline>''
   \<and> \<not> sublist ''genT''
         (repackage (referenceType (declareType ''package stack\<newline>type AnyT []genT\<newline>'' ''int'') ''Int'') ''app'')"
  by (simp add: rewrite_defs title_defs sublist_Cons_right)

text \<open>
  C4 (amended): for a template without \<^verbatim>\<open>type genT interface{}\<close> the first step of
  \<^verbatim>\<open>declareType\<close> changes nothing and the second one still replaces \<^verbatim>\<open>genT\<close>
  everywhere by the new alias name, so that the output only lacks the declaration of
  that alias; the run reports no error: it exits with status 0 and logs the generated
  name.
\<close>

theorem missing_declaration:
  assumes "ImportDir w = Inr pkg"
    and "ReadFile w (main_source w) = Inr input"
    and "\<not> sublist ''type genT interface{}'' input"
  shows "declareType input (kind (opt w)) = ReplaceAll input ''genT'' (''gen'' @ Title (kind (opt w)))
       \<and> exit_code (main w) = 0
       \<and> logged (main w) = [log_line (main_generic w @ ''.'' @ main_typename w)]
       \<and> main_output w pkg input =
           ''// Code generated by `golem` package\<newline>''
           @ ''// Source: '' @ generic (opt w) @ ''\<newline>''
           @ ''// Time: '' @ Now w @ ''\<newline>\<newline>''
           @ repackage
               (referenceType (ReplaceAll input ''genT'' (''gen'' @ Title (kind (opt w))))
                  (main_typename w))
               (Name pkg)"
proof -
  from assms(3) have d: "declareType input (kind (opt w))
      = ReplaceAll input ''genT'' (''gen'' @ Title (kind (opt w)))"
    by (simp add: declareType_def Replace_absent)
  from assms(1,2) have "exit_code (main w) = 0"
    and "logged (main w) = [log_line (main_generic w @ ''.'' @ main_typename w)]"
    by (simp_all add: main_def Let_def)
  with d show ?thesis by (simp add: main_output_def Let_def)
qed

theorem missing_declaration_witness:
  "ImportDir (demo_world (stack_opts ''int'' True)
       ''package stack\<newline>type AnyT []genT\<newline>'' None) = Inr \<lparr>Name = ''app'', PkgRoot = ''/go/pkg''\<rparr>
   \<and> \<not> sublist ''type genT interface{}'' ''package stack\<newline>type AnyT []genT\<newline>''
   \<and> declareType ''package stack\<newline>type AnyT []genT\<newline>'' ''int''
       = ReplaceAll ''package stack\<newline>type AnyT []genT\<newline>'' ''genT'' (''gen'' @ Title ''int'')
   \<and> exit_code (main (demo_world (stack_opts ''int'' True)
       ''package stack\<newline>type AnyT []genT\<newline>'' None)) = 0"
proof -
  let ?t = "''package stack\<newline>type AnyT []genT\<newline>''"
  let ?w = "demo_world (stack_opts ''int'' True) ?t None"
  have i: "ImportDir ?w = Inr \<lparr>Name = ''app'', PkgRoot = ''/go/pkg''\<rparr>"
    by (simp add: demo_world_def stack_opts_def)
  have s: "main_source ?w = ''/go/src/github.com/fogfish/golem/stack/stack.go''"
    by (simp add: demo_world_def stack_opts_def path_defs)
  have r: "ReadFile ?w (main_source ?w) = Inr ?t"
    unfolding s by (simp add: demo_world_def stack_opts_def)
  have n: "\<not> sublist ''type genT interface{}'' ?t"
    by (simp add: sublist_Cons_right)
  have o: "kind (opt ?w) = ''int''"
    by (simp add: demo_world_def stack_opts_def)
  from missing_declaration [OF i r n] i n show ?thesis
    unfolding o by blast
qed

text \<open>
  C5 (as stated): for the generic name \<^verbatim>\<open>stack\<close>, library mode with the type
  \<^verbatim>\<open>Int\<close> gives the file name \<^verbatim>\<open>int.go\<close>. The file name is the type as given
  followed by \<^verbatim>\<open>.go\<close>, here \<^verbatim>\<open>Int.go\<close>.
\<close>

theorem mode_filename_counterexample:
  "main_generic (demo_world (stack_opts ''Int'' True) stack_template None) = ''stack''
   \<and> main_filename (demo_world (stack_opts ''Int'' True) stack_template None) = ''Int.go''
   \<and> main_filename (demo_world (stack_opts ''Int'' True) stack_template None) \<noteq> ''int.go''"
  by (simp add: demo_world_def stack_opts_def path_defs title_defs)

text \<open>
  C5 (amended): for the generic name \<^verbatim>\<open>stack\<close>, library mode with the type
  \<^verbatim>\<open>Int\<close> gives the file name \<^verbatim>\<open>Int.go\<close> and the concrete type \<^verbatim>\<open>Int\<close> (the
  file name \<^verbatim>\<open>int.go\<close> belongs to the type \<^verbatim>\<open>int\<close>, with the same concrete type);
  application mode with the type \<^verbatim>\<open>Stack\<close> gives \<^verbatim>\<open>stack.go\<close> and \<^verbatim>\<open>Stack\<close>.
\<close>

theorem mode_filename:
  assumes "main_generic w = ''stack''"
  shows "(lib (opt w) \<longrightarrow> kind (opt w) = ''Int'' \<longrightarrow>
            main_filename w = ''Int.go'' \<and> main_typename w = ''Int'')
       \<and> (lib (opt w) \<longrightarrow> kind (opt w) = ''int'' \<longrightarrow>
            main_filename w = ''int.go'' \<and> main_typename w = ''Int'')
       \<and> (\<not> lib (opt w) \<longrightarrow> kind (opt w) = ''Stack'' \<longrightarrow>
            main_filename w = ''stack.go'' \<and> main_typename w = ''Stack'')"
  using assms by (simp add: main_filename_def main_typename_def title_defs)

theorem mode_filename_witness:
  "main_generic (demo_world (stack_opts ''Int'' True) stack_template None) = ''stack''
   \<and> main_filename (demo_world (stack_opts ''Int'' True) stack_template None) = ''Int.go''
   \<and> main_typename (demo_world (stack_opts ''Int'' True) stack_template None) = ''Int''
   \<and> main_generic (demo_world (stack_opts ''int'' True) stack_template None) = ''stack''
   \<and> main_filename (demo_world (stack_opts ''int'' True) stack_template None) = ''int.go''
   \<and> main_typename (demo_world (stack_opts ''int'' True) stack_template None) = ''Int''
   \<and> main_generic (demo_world (stack_opts ''Stack'' False) stack_template None) = ''stack''
   \<and> main_filename (demo_world (stack_opts ''Stack'' False) stack_template None) = ''stack.go''
   \<and> main_typename (demo_world (stack_opts ''Stack'' False) stack_template None) = ''Stack''"
proof -
  have g: "main_generic (demo_world (stack_opts k l) stack_template None) = ''stack''"
    for k l
    by (simp add: demo_world_def stack_opts_def path_defs)
  have o: "opt (demo_world os tmpl None) = os" for os tmpl
    by (simp add: demo_world_def stack_opts_def)
  from mode_filename [OF g [of "''Int''" True]] mode_filename [OF g [of "''int''" True]]
    mode_filename [OF g [of "''Stack''" False]] g
  show ?thesis by (simp add: o stack_opts_def)
qed

text \<open>
  C6: when writing the output file fails, the process exits with a non-zero status
  and logs a diagnostic. Evaluated on a run in which \<^verbatim>\<open>WriteFile\<close> returns
  \<^verbatim>\<open>permission denied\<close>: the exit status is 0, the log is the line of a successful
  run, and no file exists.
\<close>

theorem write_error_ignored:
  "WriteFile (demo_world (stack_opts ''Int'' True) stack_template (Some ''permission denied''))
       ''/go/pkg/Int.go''
       (main_output (demo_world (stack_opts ''Int'' True) stack_template (Some ''permission denied''))
          \<lparr>Name = ''app'', PkgRoot = ''/go/pkg''\<rparr> stack_template)
     = Some ''permission denied''
   \<and> exit_code (main (demo_world (stack_opts ''Int'' True) stack_template (Some ''permission denied''))) = 0
   \<and> logged (main (demo_world (stack_opts ''Int'' True) stack_template (Some ''permission denied''))) = [''==> golem: stack.Int\<newline>'']
   \<and> written (main (demo_world (stack_opts ''Int'' True) stack_template (Some ''permission denied''))) = None"
  by (simp add: main_def demo_world_def stack_opts_def path_defs title_defs log_line_def Let_def)

text \<open>
  C7: two runs on the same template, target type, mode and package give the same
  output but for the line with the time stamp; they also end with the same exit status
  and log.
\<close>

theorem same_but_timestamp:
  assumes "CHR ''\<newline>'' \<notin> set t1" and "CHR ''\<newline>'' \<notin> set t2"
  shows "\<exists>pre post.
           main_output (w\<lparr>Now := t1\<rparr>) pkg input = pre @ (''// Time: '' @ t1) @ ''\<newline>'' @ post
         \<and> main_output (w\<lparr>Now := t2\<rparr>) pkg input = pre @ (''// Time: '' @ t2) @ ''\<newline>'' @ post
         \<and> last pre = CHR ''\<newline>''
         \<and> CHR ''\<newline>'' \<notin> set (''// Time: '' @ t1)
         \<and> CHR ''\<newline>'' \<notin> set (''// Time: '' @ t2)
         \<and> exit_code (main (w\<lparr>Now := t1\<rparr>)) = exit_code (main (w\<lparr>Now := t2\<rparr>))
         \<and> logged (main (w\<lparr>Now := t1\<rparr>)) = logged (main (w\<lparr>Now := t2\<rparr>))"
proof -
  let ?pre = "''// Code generated by `golem` package\<newline>'' @ ''// Source: '' @ generic (opt w) @ ''\<newline>''"
  let ?post = "''\<newline>'' @ repackage (referenceType (declareType input (kind (opt w))) (main_typename w)) (Name pkg)"
  have ty: "main_typename (w\<lparr>Now := t\<rparr>) = main_typename w" for t
    by (simp add: main_typename_def main_generic_def main_source_def)
  have "main_output (w\<lparr>Now := t\<rparr>) pkg input = ?pre @ (''// Time: '' @ t) @ ''\<newline>'' @ ?post" for t
    by (simp add: main_output_def Let_def ty)
  moreover have "last ?pre = CHR ''\<newline>''" by simp
  moreover have "exit_code (main (w\<lparr>Now := t1\<rparr>)) = exit_code (main (w\<lparr>Now := t2\<rparr>))"
    and "logged (main (w\<lparr>Now := t1\<rparr>)) = logged (main (w\<lparr>Now := t2\<rparr>))"
    by (simp_all add: main_def Let_def main_typename_def main_generic_def main_source_def
        split: sum.splits)
  ultimately show ?thesis using assms by (intro exI [of _ ?pre] exI [of _ ?post]) simp
qed

theorem same_but_timestamp_witness:
  "CHR ''\<newline>'' \<notin> set ''2019-11-24 10:00:00 +0000 UTC''
   \<and> CHR ''\<newline>'' \<notin> set ''2020-02-29 23:59:59 +0000 UTC''
   \<and> (\<exists>pre post.
          main_output
            ((demo_world (stack_opts ''int'' True) stack_template None)
               \<lparr>Now := ''2019-11-24 10:00:00 +0000 UTC''\<rparr>)
            \<lparr>Name = ''app'', PkgRoot = ''/go/pkg''\<rparr> stack_template
            = pre @ ''// Time: 2019-11-24 10:00:00 +0000 UTC'' @ ''\<newline>'' @ post
        \<and> main_output
            ((demo_world (stack_opts ''int'' True) stack_template None)
               \<lparr>Now := ''2020-02-29 23:59:59 +0000 UTC''\<rparr>)
            \<lparr>Name = ''app'', PkgRoot = ''/go/pkg''\<rparr> stack_template
            = pre @ ''// Time: 2020-02-29 23:59:59 +0000 UTC'' @ ''\<newline>'' @ post)"
proof -
  have h1: "CHR ''\<newline>'' \<notin> set ''2019-11-24 10:00:00 +0000 UTC''" by simp
  have h2: "CHR ''\<newline>'' \<notin> set ''2020-02-29 23:59:59 +0000 UTC''" by simp
  from same_but_timestamp [OF h1 h2,
      of "demo_world (stack_opts ''int'' True) stack_template None"
         "\<lparr>Name = ''app'', PkgRoot = ''/go/pkg''\<rparr>" stack_template]
  obtain pre post where
    "main_output
            ((demo_world (stack_opts ''int'' True) stack_template None)
               \<lparr>Now := ''2019-11-24 10:00:00 +0000 UTC''\<rparr>)
            \<lparr>Name = ''app'', PkgRoot = ''/go/pkg''\<rparr> stack_template
            = pre @ (''// Time: '' @ ''2019-11-24 10:00:00 +0000 UTC'') @ ''\<newline>'' @ post"
    "main_output
            ((demo_world (stack_opts ''int'' True) stack_template None)
               \<lparr>Now := ''2020-02-29 23:59:59 +0000 UTC''\<rparr>)
            \<lparr>Name = ''app'', PkgRoot = ''/go/pkg''\<rparr> stack_template
            = pre @ (''// Time: '' @ ''2020-02-29 23:59:59 +0000 UTC'') @ ''\<newline>'' @ post"
    by blast
  then have "\<exists>pre post.
          main_output
            ((demo_world (stack_opts ''int'' True) stack_template None)
               \<lparr>Now := ''2019-11-24 10:00:00 +0000 UTC''\<rparr>)
            \<lparr>Name = ''app'', PkgRoot = ''/go/pkg''\<rparr> stack_template
            = pre @ ''// Time: 2019-11-24 10:00:00 +0000 UTC'' @ ''\<newline>'' @ post
        \<and> main_output
            ((demo_world (stack_opts ''int'' True) stack_template None)
               \<lparr>Now := ''2020-02-29 23:59:59 +0000 UTC''\<rparr>)
            \<lparr>Name = ''app'', PkgRoot = ''/go/pkg''\<rparr> stack_template
            = pre @ ''// Time: 2020-02-29 23:59:59 +0000 UTC'' @ ''\<newline>'' @ post"
    by (intro exI [of _ pre] exI [of _ post]) simp
  with h1 h2 show ?thesis by blast
qed

text \<open>
  C8: the file that a run writes begins with three comment lines, the marker, the
  path of the template as given on the command line and the time, in this order; an
  empty line and the rewritten template follow.
\<close>

theorem header_then_body:
  assumes "ImportDir w = Inr pkg"
    and "ReadFile w (main_source w) = Inr input"
    and "WriteFile w (Join [PkgRoot pkg, main_filename w]) (main_output w pkg input) = None"
  shows "written (main w) =
           Some (Join [PkgRoot pkg, main_filename w],
                 ''// Code generated by `golem` package\<newline>''
                 @ ''// Source: '' @ generic (opt w) @ ''\<newline>''
                 @ ''// Time: '' @ Now w @ ''\<newline>''
                 @ ''\<newline>''
                 @ repackage (referenceType (declareType input (kind (opt w))) (main_typename w))
                     (Name pkg))"
  using assms by (simp add: main_def main_output_def Let_def)

theorem header_then_body_witness:
  "ImportDir (demo_world (stack_opts ''int'' True) stack_template None)
     = Inr \<lparr>Name = ''app'', PkgRoot = ''/go/pkg''\<rparr>
   \<and> written (main (demo_world (stack_opts ''int'' True) stack_template None)) =
       Some (''/go/pkg/int.go'',
             ''// Code generated by `golem` package\<newline>''
             @ ''// Source: github.com/fogfish/golem/stack/stack.go\<newline>''
             @ ''// Time: 2019-11-24 10:00:00 +0000 UTC\<newline>''
             @ ''\<newline>''
             @ ''package app\<newline>\<newline>type genInt int\<newline>\<newline>type Int struct { elements []genInt }\<newline>'')"
proof -
  let ?w = "demo_world (stack_opts ''int'' True) stack_template None"
  have i: "ImportDir ?w = Inr \<lparr>Name = ''app'', PkgRoot = ''/go/pkg''\<rparr>"
    by (simp add: demo_world_def stack_opts_def)
  have s: "main_source ?w = ''/go/src/github.com/fogfish/golem/stack/stack.go''"
    by (simp add: demo_world_def stack_opts_def path_defs)
  have r: "ReadFile ?w (main_source ?w) = Inr stack_template"
    unfolding s by (simp add: demo_world_def stack_opts_def)
  have x: "WriteFile ?w p d = None" for p d
    by (simp add: demo_world_def stack_opts_def)
  have f: "main_filename ?w = ''int.go''" and t: "main_typename ?w = ''Int''"
    by (simp_all add: demo_world_def stack_opts_def main_filename_def main_typename_def title_defs)
  have o: "generic (opt ?w) = ''github.com/fogfish/golem/stack/stack.go''"
    "kind (opt ?w) = ''int''"
    and n: "Now ?w = ''2019-11-24 10:00:00 +0000 UTC''"
    by (simp_all add: demo_world_def stack_opts_def)
  have b: "repackage (referenceType (declareType stack_template ''int'') ''Int'') ''app''
      = ''package app\<newline>\<newline>type genInt int\<newline>\<newline>type Int struct { elements []genInt }\<newline>''"
    by (simp add: stack_template_def rewrite_defs title_defs)
  from header_then_body [OF i r x] i show ?thesis
    by (simp add: f t o n b Join_def Clean_def clean_step_def)
qed

text \<open>
  C9: \<^verbatim>\<open>declareType\<close> turns the declaration into \<^verbatim>\<open>type gen<Type> <type>\<close>, and the
  replacement of \<^verbatim>\<open>genT\<close> that follows does not rewrite it a second time. Evaluated
  for the type \<^verbatim>\<open>Tree\<close>: the new declaration \<^verbatim>\<open>type genTree Tree\<close> contains
  \<^verbatim>\<open>genT\<close>, the second step rewrites it, and the alias is declared as
  \<^verbatim>\<open>genTreeree\<close> while its uses are named \<^verbatim>\<open>genTree\<close>.
\<close>

theorem declaration_rewritten_twice:
  "declareType ''type genT interface{}\<newline>var x genT\<newline>'' ''Tree''
     = ''type genTreeree Tree\<newline>var x genTree\<newline>''"
  by (simp add: rewrite_defs title_defs)

text \<open>
  C10: a text in which no \<^verbatim>\<open>package \<close> is followed, after any characters, by a
  newline is returned by \<^verbatim>\<open>repackage\<close> as it is; so is a text whose package
  declaration is the last line and has no newline at its end.
\<close>

theorem no_package_line_unchanged:
  assumes "\<forall>pre x post. s \<noteq> pre @ ''package '' @ x @ ''\<newline>'' @ post"
  shows "repackage s pkg = s"
proof -
  from assms have "find_match s = None" unfolding find_match_None_iff .
  then show ?thesis by (simp add: repackage_def re_ReplaceAll.simps [of s])
qed

theorem no_package_line_unchanged_witness:
  "(\<forall>pre x post. ''// stack\<newline>package stack'' \<noteq> pre @ ''package '' @ x @ ''\<newline>'' @ post)
   \<and> repackage ''// stack\<newline>package stack'' ''main'' = ''// stack\<newline>package stack''"
proof -
  have "find_match ''// stack\<newline>package stack'' = None"
    by (simp add: find_match_def)
  then have h: "\<forall>pre x post. ''// stack\<newline>package stack'' \<noteq> pre @ ''package '' @ x @ ''\<newline>'' @ post"
    unfolding find_match_None_iff .
  from no_package_line_unchanged [OF h, of "''main''"] h show ?thesis by blast
qed

end
